theory Spec2Isabelle
  imports
    Complex_Main
    "HOL-Library.Log_Nat"
    "HOL-Library.Char_ord"
    "HOL-Library.List_Lexorder"
    "HOL-Library.Multiset"
begin

section \<open>Skill matching of the SIP AI engine\<close>

text \<open>
  The repository holds the same skill matcher three times:
  \<^item> \<^verbatim>\<open>src/api/ai/match.py\<close>, \<^verbatim>\<open>handler.do_POST\<close> (lines 19 to 45),
  \<^item> \<^verbatim>\<open>src/apps/ai-engine/main.py\<close>, \<^verbatim>\<open>match_skills\<close> (lines 60 to 94),
  \<^item> \<^verbatim>\<open>src/apps/web-app/api/ai/index.py\<close>, \<^verbatim>\<open>handler.match_skills\<close> (lines 54 to 81).

  Each is embedded below as a function of its own, written out from its own source text.
  The two request handlers read their lists from decoded JSON, whose entries can be any
  JSON value; the FastAPI route receives a validated \<^verbatim>\<open>SkillMatchRequest\<close>, whose
  fields are typed \<^verbatim>\<open>List[str]\<close>. The decorator line 59 of \<^verbatim>\<open>main.py\<close>, which
  registers that route, is embedded apart from the body.
\<close>

subsection \<open>Python values and exceptions\<close>

text \<open>
  What \<^verbatim>\<open>json.loads\<close> can put into a list. Only \<open>JStr\<close> is a Python \<^verbatim>\<open>str\<close>;
  \<open>JNum\<close> stands for both \<^verbatim>\<open>int\<close> and \<^verbatim>\<open>float\<close>.
\<close>

datatype json =
    JNull
  | JBool bool
  | JNum rat
  | JStr string
  | JArr "json list"
  | JObj "(string \<times> json) list"

text \<open>
  The two exceptions the body of the matcher can raise: \<^verbatim>\<open>s.lower()\<close> on a value that
  is not a \<^verbatim>\<open>str\<close> raises \<^verbatim>\<open>AttributeError\<close>, a division by \<open>0\<close> raises
  \<^verbatim>\<open>ZeroDivisionError\<close>. Nothing in the three functions catches either. A module whose
  text is not Python raises \<^verbatim>\<open>SyntaxError\<close> when it is loaded.
\<close>

datatype error = AttributeError | ZeroDivisionError | SyntaxError

text \<open>
  A \<open>string\<close> is a list of 8-bit characters, read as the code points below 256. There
  \<^verbatim>\<open>str.lower\<close> moves \<open>A\<close> to \<open>Z\<close> (65 to 90) and the capital letters of Latin-1
  (192 to 222, without the multiplication sign 215) up by 32 and leaves every other
  character alone. Nothing is trimmed.
\<close>

definition lower_char :: "char \<Rightarrow> char" where
  "lower_char c =
     (let n = (of_char c :: nat)
      in if (65 \<le> n \<and> n \<le> 90) \<or> (192 \<le> n \<and> n \<le> 222 \<and> n \<noteq> 215)
         then char_of (n + 32) else c)"

definition lower :: "string \<Rightarrow> string" where
  "lower s = map lower_char s"

text \<open>
  The generator \<^verbatim>\<open>s.lower() for s in xs\<close> over a decoded list: it yields the lowered
  strings from left to right and raises at the first entry that has no \<^verbatim>\<open>lower\<close>.
\<close>

fun lower_entries :: "json list \<Rightarrow> error + string list" where
  "lower_entries [] = Inr []"
| "lower_entries (JStr s # xs) =
     (case lower_entries xs of Inl e \<Rightarrow> Inl e | Inr ys \<Rightarrow> Inr (lower s # ys))"
| "lower_entries (_ # xs) = Inl AttributeError"

text \<open>\<^verbatim>\<open>sep.join(xs)\<close>.\<close>

fun join :: "string \<Rightarrow> string list \<Rightarrow> string" where
  "join sep [] = []"
| "join sep [x] = x"
| "join sep (x # y # ys) = x @ sep @ join sep (y # ys)"

subsection \<open>Floating point\<close>

text \<open>
  A Python \<^verbatim>\<open>float\<close> is an IEEE 754 binary64 number; every finite one is a rational,
  and the model carries that rational. All floats of the matcher lie in \<open>[0, 1]\<close>.

  \<open>round_half_even\<close> is rounding to the nearest integer, ties to the even one.
\<close>

definition round_half_even :: "rat \<Rightarrow> int" where
  "round_half_even x =
     (let f = \<lfloor>x\<rfloor>; r = x - of_int f
      in if r < 1 / 2 then f else if 1 / 2 < r then f + 1 else if even f then f else f + 1)"

text \<open>The binary exponent \<open>e\<close> of a positive rational: \<open>2^e \<le> x < 2^(e+1)\<close>.\<close>

definition float_exponent :: "rat \<Rightarrow> int" where
  "float_exponent x =
     (let (a, b) = quotient_of x; d = bitlen a - bitlen b
      in if b * 2 ^ nat d \<le> a * 2 ^ nat (- d) then d else d - 1)"

text \<open>
  The binary64 number nearest to \<open>x\<close>, ties to even, for \<open>0 \<le> x < 2^53\<close>: a mantissa of
  53 bits at the exponent of \<open>x\<close>, and the fixed spacing \<open>2^-1074\<close> of the subnormal range
  below \<open>2^-1022\<close>.
\<close>

definition binary64 :: "rat \<Rightarrow> rat" where
  "binary64 x =
     (if x \<le> 0 then 0
      else let p = nat (min (52 - float_exponent x) 1074)
           in of_int (round_half_even (x * 2 ^ p)) / 2 ^ p)"

text \<open>
  \<^verbatim>\<open>a / b\<close> on two \<^verbatim>\<open>int\<close>s that are not negative (here two \<^verbatim>\<open>len\<close> results):
  the correctly rounded quotient, and \<^verbatim>\<open>ZeroDivisionError\<close> when \<open>b\<close> is \<open>0\<close>.
\<close>

definition py_truediv :: "nat \<Rightarrow> nat \<Rightarrow> error + rat" where
  "py_truediv a b =
     (if b = 0 then Inl ZeroDivisionError else Inr (binary64 (of_nat a / of_nat b)))"

text \<open>
  \<^verbatim>\<open>round(x, ndigits)\<close> on a float: the exact value of \<open>x\<close> is rounded to \<open>ndigits\<close>
  decimal places, ties to even, and the decimal is read back as a float.
\<close>

definition py_round :: "rat \<Rightarrow> nat \<Rightarrow> rat" where
  "py_round x ndigits = binary64 (of_int (round_half_even (x * 10 ^ ndigits)) / 10 ^ ndigits)"

text \<open>The literals \<^verbatim>\<open>0.7\<close> and \<^verbatim>\<open>0.5\<close>.\<close>

definition float_0_7 :: rat where
  "float_0_7 = binary64 (7 / 10)"

definition float_0_5 :: rat where
  "float_0_5 = binary64 (5 / 10)"

subsection \<open>The response\<close>

record response =
  match_score :: rat
  matched_skills :: "string list"
  skill_gaps :: "string list"
  recommendations :: "string list"

text \<open>
  Python's \<^verbatim>\<open>list(s)\<close> on a set walks the hash table of \<open>s\<close>. The order depends on the
  hashes of the strings, which Python salts anew for every interpreter process. The
  matcher takes this conversion as its first argument \<open>list_of\<close>; all that is known of
  it is that it lists every element of the set once. The two conversions of
  \<^verbatim>\<open>skill_gaps\<close> (for the notice and for the response) walk the same unchanged set.
\<close>

definition set_listing :: "(string set \<Rightarrow> string list) \<Rightarrow> bool" where
  "set_listing list_of \<longleftrightarrow> (\<forall>S. finite S \<longrightarrow> set (list_of S) = S \<and> distinct (list_of S))"

subsection \<open>src/apps/ai-engine/main.py: match_skills\<close>

text \<open>
  The arguments are \<^verbatim>\<open>request.student_skills\<close> and \<^verbatim>\<open>request.internship_skills\<close>,
  both \<^verbatim>\<open>List[str]\<close>.
\<close>

definition match_skills ::
  "(string set \<Rightarrow> string list) \<Rightarrow> string list \<Rightarrow> string list \<Rightarrow> error + response" where
  "match_skills list_of request_student_skills request_internship_skills =
     (let student_skills = set (map lower request_student_skills);
          internship_skills = set (map lower request_internship_skills);
          matched = student_skills \<inter> internship_skills;
          gaps = internship_skills - student_skills
      in case (if card internship_skills = 0 then Inr 0
               else py_truediv (card matched) (card internship_skills)) of
           Inl e \<Rightarrow> Inl e
         | Inr score \<Rightarrow>
             (let recs = [];
                  recs = (if card gaps > 0
                          then recs @ [''Consider learning: '' @ join '', '' (take 3 (list_of gaps))]
                          else recs);
                  recs = (if score > float_0_7
                          then recs @ [''Strong match! Apply with confidence.'']
                          else if score > float_0_5
                          then recs @ [''Good match. Highlight your transferable skills.'']
                          else recs @ [''Focus on building required skills first.''])
              in Inr \<lparr>match_score = py_round score 2,
                      matched_skills = list_of matched,
                      skill_gaps = list_of gaps,
                      recommendations = recs\<rparr>))"

subsection \<open>src/apps/ai-engine/main.py: the module and its routes\<close>

text \<open>
  \<open>match_skills\<close> above is the body of the function, lines 60 to 94. A request reaches
  it only through the route that the decorator line 59 registers, and only when the
  module compiles. The decorator lines of \<^verbatim>\<open>main.py\<close> all have one form: \<^verbatim>\<open>@\<close>, a
  dotted name (identifiers joined by dots), and a call. \<open>decorator_head\<close> reads such a
  line up to its opening parenthesis.
\<close>

definition ident_start :: "char \<Rightarrow> bool" where
  "ident_start c =
     (let n = (of_char c :: nat) in (65 \<le> n \<and> n \<le> 90) \<or> (97 \<le> n \<and> n \<le> 122) \<or> n = 95)"

definition ident_char :: "char \<Rightarrow> bool" where
  "ident_char c = (let n = (of_char c :: nat) in ident_start c \<or> (48 \<le> n \<and> n \<le> 57))"

text \<open>\<open>need\<close> says that an identifier has to start here: at the beginning and after a dot.\<close>

fun dotted_name :: "bool \<Rightarrow> string \<Rightarrow> bool" where
  "dotted_name need [] = (\<not> need)"
| "dotted_name need (c # cs) =
     (if need then ident_start c \<and> dotted_name False cs
      else if ident_char c then dotted_name False cs
      else if c = CHR ''.'' then dotted_name True cs
      else c = CHR ''('')"

definition decorator_head :: "string \<Rightarrow> bool" where
  "decorator_head s = (case s of [] \<Rightarrow> False | c # cs \<Rightarrow> c = CHR ''@'' \<and> dotted_name True cs)"

text \<open>
  The decorator lines 47, 55, 59, 96, 124 and 137 of \<^verbatim>\<open>main.py\<close>, each up to its opening
  parenthesis. Line 59 has a colon where the others have a dot.
\<close>

definition main_py_decorators :: "string list" where
  "main_py_decorators =
     [''@app.get('', ''@app.get('', ''@app:post('', ''@app.post('', ''@app.post('', ''@app.post('']"

definition main_py_compiles :: bool where
  "main_py_compiles = list_all decorator_head main_py_decorators"

text \<open>
  The route \<^verbatim>\<open>POST /api/v1/match/skills\<close> of the module as it is: the body when the
  module compiles, and \<^verbatim>\<open>SyntaxError\<close> at load time, whatever the request, when it does
  not.
\<close>

definition main_py_match_skills ::
  "(string set \<Rightarrow> string list) \<Rightarrow> string list \<Rightarrow> string list \<Rightarrow> error + response" where
  "main_py_match_skills list_of request_student_skills request_internship_skills =
     (if main_py_compiles
      then match_skills list_of request_student_skills request_internship_skills
      else Inl SyntaxError)"

subsection \<open>src/api/ai/match.py: handler.do_POST\<close>

text \<open>
  The two arguments are the lists \<^verbatim>\<open>data.get('student_skills', [])\<close> and
  \<^verbatim>\<open>data.get('internship_skills', [])\<close>; the result is the \<^verbatim>\<open>response\<close> dictionary
  handed to \<^verbatim>\<open>json.dumps\<close>, or the exception that ends the handler.
\<close>

definition do_POST ::
  "(string set \<Rightarrow> string list) \<Rightarrow> json list \<Rightarrow> json list \<Rightarrow> error + response" where
  "do_POST list_of data_student_skills data_internship_skills =
     (case lower_entries data_student_skills of
        Inl e \<Rightarrow> Inl e
      | Inr ss \<Rightarrow>
     (case lower_entries data_internship_skills of
        Inl e \<Rightarrow> Inl e
      | Inr rs \<Rightarrow>
     (let student_skills = set ss;
          internship_skills = set rs;
          matched = student_skills \<inter> internship_skills;
          gaps = internship_skills - student_skills
      in case (if card internship_skills = 0 then Inr 0
               else py_truediv (card matched) (card internship_skills)) of
           Inl e \<Rightarrow> Inl e
         | Inr score \<Rightarrow>
             (let recs = [];
                  recs = (if card gaps > 0
                          then recs @ [''Consider learning: '' @ join '', '' (take 3 (list_of gaps))]
                          else recs);
                  recs = (if score > float_0_7
                          then recs @ [''Strong match! Apply with confidence.'']
                          else if score > float_0_5
                          then recs @ [''Good match. Highlight your transferable skills.'']
                          else recs @ [''Focus on building required skills first.''])
              in Inr \<lparr>match_score = py_round score 2,
                      matched_skills = list_of matched,
                      skill_gaps = list_of gaps,
                      recommendations = recs\<rparr>))))"

subsection \<open>src/apps/web-app/api/ai/index.py: handler.match_skills\<close>

text \<open>The arguments and the result are those of \<open>do_POST\<close>; the caller writes the result.\<close>

definition handler_match_skills ::
  "(string set \<Rightarrow> string list) \<Rightarrow> json list \<Rightarrow> json list \<Rightarrow> error + response" where
  "handler_match_skills list_of data_student_skills data_internship_skills =
     (case lower_entries data_student_skills of
        Inl e \<Rightarrow> Inl e
      | Inr ss \<Rightarrow>
     (case lower_entries data_internship_skills of
        Inl e \<Rightarrow> Inl e
      | Inr rs \<Rightarrow>
     (let student_skills = set ss;
          internship_skills = set rs;
          matched = student_skills \<inter> internship_skills;
          gaps = internship_skills - student_skills
      in case (if card internship_skills = 0 then Inr 0
               else py_truediv (card matched) (card internship_skills)) of
           Inl e \<Rightarrow> Inl e
         | Inr score \<Rightarrow>
             (let recs = [];
                  recs = (if card gaps > 0
                          then recs @ [''Consider learning: '' @ join '', '' (take 3 (list_of gaps))]
                          else recs);
                  recs = (if score > float_0_7
                          then recs @ [''Strong match! Apply with confidence.'']
                          else if score > float_0_5
                          then recs @ [''Good match. Highlight your transferable skills.'']
                          else recs @ [''Focus on building required skills first.''])
              in Inr \<lparr>match_score = py_round score 2,
                      matched_skills = list_of matched,
                      skill_gaps = list_of gaps,
                      recommendations = recs\<rparr>))))"

subsection \<open>Vocabulary of the statements\<close>

text \<open>The lowercased set of a list of skills.\<close>

definition skill_set :: "string list \<Rightarrow> string set" where
  "skill_set xs = lower ` set xs"

text \<open>
  The unrounded score, the value of \<^verbatim>\<open>match_score\<close> before the response is built:
  \<open>0.0\<close> on an empty requirement set, the float quotient of the two sizes otherwise.
\<close>

definition raw_score :: "string list \<Rightarrow> string list \<Rightarrow> rat" where
  "raw_score cs rs =
     (if skill_set rs = {} then 0
      else binary64 (of_nat (card (skill_set cs \<inter> skill_set rs)) / of_nat (card (skill_set rs))))"

text \<open>The three tier messages, and the test for being one of them.\<close>

definition strong_match :: string where
  "strong_match = ''Strong match! Apply with confidence.''"

definition good_match :: string where
  "good_match = ''Good match. Highlight your transferable skills.''"

definition focus_first :: string where
  "focus_first = ''Focus on building required skills first.''"

definition is_tier :: "string \<Rightarrow> bool" where
  "is_tier s \<longleftrightarrow> s = strong_match \<or> s = good_match \<or> s = focus_first"

text \<open>The tier message of a float, by the two comparisons of the source.\<close>

definition tier_message :: "rat \<Rightarrow> string" where
  "tier_message q =
     (if q > float_0_7 then strong_match else if q > float_0_5 then good_match else focus_first)"

text \<open>Entries that are strings, and the string of such an entry.\<close>

fun is_str :: "json \<Rightarrow> bool" where
  "is_str (JStr s) = True"
| "is_str _ = False"

fun str_of :: "json \<Rightarrow> string" where
  "str_of (JStr s) = s"
| "str_of _ = []"

text \<open>
  A requirement of 27 different skills and a candidate who has the first 19 of them:
  the quotient is \<open>19/27 = 0.7037...\<close>, which rounds to \<open>0.70\<close>.
\<close>

definition required_27 :: "string list" where
  "required_27 =
     [''a'', ''b'', ''c'', ''d'', ''e'', ''f'', ''g'', ''h'', ''i'', ''j'', ''k'', ''l'', ''m'',
      ''n'', ''o'', ''p'', ''q'', ''r'', ''s'', ''t'', ''u'', ''v'', ''w'', ''x'', ''y'', ''z'',
      ''sql'']"

definition candidate_19 :: "string list" where
  "candidate_19 =
     [''a'', ''b'', ''c'', ''d'', ''e'', ''f'', ''g'', ''h'', ''i'', ''j'', ''k'', ''l'', ''m'',
      ''n'', ''o'', ''p'', ''q'', ''r'', ''s'']"

text \<open>Two orders in which a set of strings can be listed.\<close>

definition ascending :: "string set \<Rightarrow> string list" where
  "ascending S = sorted_list_of_set S"

definition descending :: "string set \<Rightarrow> string list" where
  "descending S = rev (sorted_list_of_set S)"

section \<open>Auxiliary facts\<close>

subsection \<open>Rounding and the floats of the matcher\<close>

lemma rhe_of_int: "round_half_even (of_int k) = k"
  by (simp add: round_half_even_def)

lemma rhe_lower: "\<lfloor>x\<rfloor> \<le> round_half_even x"
  by (simp add: round_half_even_def Let_def)

lemma rhe_upper: "round_half_even x \<le> \<lfloor>x\<rfloor> + 1"
  by (simp add: round_half_even_def Let_def)

lemma rhe_mono: "x \<le> y \<Longrightarrow> round_half_even x \<le> round_half_even y"
proof -
  assume xy: "x \<le> y"
  then have fl: "\<lfloor>x\<rfloor> \<le> \<lfloor>y\<rfloor>" by (rule floor_mono)
  show ?thesis
  proof (cases "\<lfloor>x\<rfloor> = \<lfloor>y\<rfloor>")
    case True
    with xy show ?thesis
      by (auto simp: round_half_even_def Let_def)
  next
    case False
    with fl have "\<lfloor>x\<rfloor> + 1 \<le> \<lfloor>y\<rfloor>" by simp
    with rhe_upper [of x] rhe_lower [of y] show ?thesis by linarith
  qed
qed

lemma rhe_err: "\<bar>of_int (round_half_even x) - x\<bar> \<le> 1 / 2"
proof -
  have "of_int \<lfloor>x\<rfloor> \<le> x" "x < of_int \<lfloor>x\<rfloor> + 1" by linarith+
  then show ?thesis
    by (auto simp: round_half_even_def Let_def abs_le_iff)
qed

text \<open>The exponent is the one of the binary representation.\<close>

lemma exponent_test_iff:
  fixes a b :: int
  assumes "0 < a" "0 < b"
  shows "b * 2 ^ nat d \<le> a * 2 ^ nat (- d) \<longleftrightarrow> (2::rat) powi d \<le> of_int a / of_int b"
proof (cases "0 \<le> d")
  case True
  then have p: "(2::rat) powi d = of_int (2 ^ nat d)"
    by (simp add: power_int_def)
  from True have "nat (- d) = 0" by simp
  then have "b * 2 ^ nat d \<le> a * 2 ^ nat (- d) \<longleftrightarrow> b * 2 ^ nat d \<le> a" by simp
  also have "\<dots> \<longleftrightarrow> (of_int (b * 2 ^ nat d) :: rat) \<le> of_int a"
    by (simp only: of_int_le_iff)
  also have "\<dots> \<longleftrightarrow> (2::rat) powi d \<le> of_int a / of_int b"
    using assms by (simp add: p field_simps)
  finally show ?thesis .
next
  case False
  then have p: "(2::rat) powi d = 1 / of_int (2 ^ nat (- d))"
    by (simp add: power_int_def field_simps)
  from False have "nat d = 0" by simp
  then have "b * 2 ^ nat d \<le> a * 2 ^ nat (- d) \<longleftrightarrow> b \<le> a * 2 ^ nat (- d)" by simp
  also have "\<dots> \<longleftrightarrow> (of_int b :: rat) \<le> of_int (a * 2 ^ nat (- d))"
    by (simp only: of_int_le_iff)
  also have "\<dots> \<longleftrightarrow> (2::rat) powi d \<le> of_int a / of_int b"
    using assms by (simp add: p field_simps)
  finally show ?thesis .
qed

lemma bitlen_powi:
  fixes a :: int
  assumes "0 < a"
  shows "(2::rat) powi (bitlen a - 1) \<le> of_int a \<and> (of_int a :: rat) < 2 powi bitlen a"
proof -
  from assms have l: "1 \<le> bitlen a"
    by (simp add: bitlen_alt_def)
  from bitlen_bounds [OF assms]
  have "(of_int (2 ^ nat (bitlen a - 1)) :: rat) \<le> of_int a" "(of_int a :: rat) < of_int (2 ^ nat (bitlen a))"
    by (simp_all only: of_int_le_iff of_int_less_iff)
  with l show ?thesis
    by (simp add: power_int_def)
qed

lemma float_exponent_bounds:
  assumes "0 < x"
  shows "2 powi float_exponent x \<le> x \<and> x < 2 powi (float_exponent x + 1)"
proof -
  obtain a b where q: "quotient_of x = (a, b)" by (cases "quotient_of x")
  then have b: "0 < b" and x: "x = of_int a / of_int b"
    using quotient_of_denom_pos quotient_of_div by auto
  from assms x b have a: "0 < a"
    by (simp add: zero_less_divide_iff)
  define d where "d = bitlen a - bitlen b"
  have la: "(2::rat) powi (bitlen a - 1) \<le> of_int a" "(of_int a :: rat) < 2 powi bitlen a"
    using bitlen_powi [OF a] by simp_all
  have lb: "(2::rat) powi (bitlen b - 1) \<le> of_int b" "(of_int b :: rat) < 2 powi bitlen b"
    using bitlen_powi [OF b] by simp_all
  have pos: "(0::rat) < of_int a" "(0::rat) < of_int b"
    using a b by simp_all
  have up: "x < 2 powi (d + 1)"
  proof -
    have "x \<le> of_int a / 2 powi (bitlen b - 1)"
      unfolding x using lb(1) pos by (intro divide_left_mono) (simp_all add: zero_less_power_int)
    also have "\<dots> < 2 powi bitlen a / 2 powi (bitlen b - 1)"
      using la(2) by (intro divide_strict_right_mono) (simp_all add: zero_less_power_int)
    also have "\<dots> = 2 powi (d + 1)"
      by (simp add: d_def power_int_diff [symmetric] algebra_simps)
    finally show ?thesis .
  qed
  have low: "2 powi (d - 1) \<le> x"
  proof -
    have "(2::rat) powi (d - 1) = 2 powi (bitlen a - 1) / 2 powi bitlen b"
      by (simp add: d_def power_int_diff [symmetric] algebra_simps)
    also have "\<dots> \<le> of_int a / 2 powi bitlen b"
      using la(1) by (intro divide_right_mono) (simp_all add: zero_le_power_int)
    also have "\<dots> \<le> of_int a / of_int b"
      using lb(2) pos by (intro divide_left_mono) (simp_all add: zero_less_power_int)
    finally show ?thesis by (simp add: x)
  qed
  have t: "b * 2 ^ nat d \<le> a * 2 ^ nat (- d) \<longleftrightarrow> 2 powi d \<le> x"
    unfolding x using a b by (rule exponent_test_iff)
  show ?thesis
  proof (cases "2 powi d \<le> x")
    case True
    with t q have "float_exponent x = d"
      by (simp add: float_exponent_def d_def Let_def)
    with True up show ?thesis by simp
  next
    case False
    with t q have "float_exponent x = d - 1"
      by (simp add: float_exponent_def d_def Let_def)
    with False low show ?thesis by simp
  qed
qed

lemma float_exponent_le0:
  assumes "0 < x" "x \<le> 1"
  shows "float_exponent x \<le> 0"
proof -
  obtain a b where q: "quotient_of x = (a, b)" by (cases "quotient_of x")
  then have b: "0 < b" and x: "x = of_int a / of_int b"
    using quotient_of_denom_pos quotient_of_div by auto
  from assms x b have "0 < a" "a \<le> b"
    by (auto simp: zero_less_divide_iff divide_le_eq_1)
  then have "bitlen a \<le> bitlen b"
    by (simp add: bitlen_def floorlog_mono)
  with q show ?thesis
    by (simp add: float_exponent_def Let_def)
qed

lemma binary64_range:
  assumes "0 \<le> x" "x \<le> 1"
  shows "0 \<le> binary64 x \<and> binary64 x \<le> 1"
proof (cases "x \<le> 0")
  case True
  then show ?thesis by (simp add: binary64_def)
next
  case False
  define p where "p = nat (min (52 - float_exponent x) 1074)"
  have b: "binary64 x = of_int (round_half_even (x * 2 ^ p)) / 2 ^ p"
    using False by (simp add: binary64_def p_def Let_def)
  have "round_half_even (of_int 0) \<le> round_half_even (x * 2 ^ p)"
    using assms by (intro rhe_mono) simp
  then have lo: "0 \<le> round_half_even (x * 2 ^ p)"
    by (simp only: rhe_of_int)
  have "round_half_even (x * 2 ^ p) \<le> round_half_even (of_int (2 ^ p))"
    using assms by (intro rhe_mono) (simp add: mult_left_le_one_le)
  then have hi: "round_half_even (x * 2 ^ p) \<le> 2 ^ p"
    by (simp only: rhe_of_int)
  from hi have "(of_int (round_half_even (x * 2 ^ p)) :: rat) \<le> of_int (2 ^ p)"
    by (simp only: of_int_le_iff)
  with lo show ?thesis
    by (simp add: b divide_le_eq_1)
qed

lemma binary64_err:
  assumes "0 \<le> x" "x \<le> 1"
  shows "\<bar>binary64 x - x\<bar> \<le> 1 / 2 ^ 53"
proof (cases "x \<le> 0")
  case True
  with assms show ?thesis by (simp add: binary64_def)
next
  case False
  define p where "p = nat (min (52 - float_exponent x) 1074)"
  have b: "binary64 x = of_int (round_half_even (x * 2 ^ p)) / 2 ^ p"
    using False by (simp add: binary64_def p_def Let_def)
  from False assms have "float_exponent x \<le> 0"
    by (intro float_exponent_le0) auto
  then have p: "52 \<le> p" by (simp add: p_def)
  have "binary64 x - x = (of_int (round_half_even (x * 2 ^ p)) - x * 2 ^ p) / 2 ^ p"
    by (simp add: b diff_divide_distrib)
  then have "\<bar>binary64 x - x\<bar> = \<bar>of_int (round_half_even (x * 2 ^ p)) - x * 2 ^ p\<bar> / 2 ^ p"
    by (simp add: abs_divide)
  also have "\<dots> \<le> (1 / 2) / 2 ^ p"
    by (intro divide_right_mono rhe_err) simp
  also have "\<dots> \<le> (1 / 2) / 2 ^ 52"
  proof -
    have "(2::rat) ^ 52 \<le> 2 ^ p"
      using p by (intro power_increasing) simp_all
    then show ?thesis
      by (intro divide_left_mono) (simp_all del: power_numeral)
  qed
  finally show ?thesis by simp
qed

lemma quotient_range:
  fixes a b :: nat
  shows "a \<le> b \<Longrightarrow> 0 \<le> binary64 (of_nat a / of_nat b) \<and> binary64 (of_nat a / of_nat b) \<le> 1"
  by (intro binary64_range) (auto simp: divide_le_eq_1)

lemma py_round2_range:
  assumes "0 \<le> x" "x \<le> 1"
  shows "0 \<le> py_round x 2 \<and> py_round x 2 \<le> 1"
proof -
  have "round_half_even (of_int 0) \<le> round_half_even (x * 10 ^ 2)"
    using assms by (intro rhe_mono) simp
  then have lo: "0 \<le> round_half_even (x * 10 ^ 2)"
    by (simp only: rhe_of_int)
  have "round_half_even (x * 10 ^ 2) \<le> round_half_even (of_int 100)"
    using assms by (intro rhe_mono) simp
  then have hi: "round_half_even (x * 10 ^ 2) \<le> 100"
    by (simp only: rhe_of_int)
  from hi have "(of_int (round_half_even (x * 10 ^ 2)) :: rat) \<le> of_int 100"
    by (simp only: of_int_le_iff)
  with lo show ?thesis
    unfolding py_round_def by (intro binary64_range) simp_all
qed

lemma float_0_5_half: "float_0_5 = 1 / 2"
  unfolding float_0_5_def by code_simp

lemma float_0_7_value: "float_0_7 = 6305039478318694 / 2 ^ 53"
  unfolding float_0_7_def by code_simp

text \<open>
  Some values of the model, as Python prints them: \<^verbatim>\<open>0.1\<close> is
  \<open>3602879701896397 / 2^55\<close>; \<^verbatim>\<open>round(0.125, 2)\<close> is \<^verbatim>\<open>0.12\<close>, a tie that goes to
  the even digit; \<^verbatim>\<open>round(0.025, 2)\<close> is \<^verbatim>\<open>0.03\<close> and \<^verbatim>\<open>round(0.685, 2)\<close> is
  \<^verbatim>\<open>0.69\<close>, since the floats nearest to \<open>0.025\<close> and \<open>0.685\<close> lie above them.
\<close>

lemma binary64_examples:
  "binary64 (1 / 10) = 3602879701896397 / 36028797018963968"
  "binary64 (1 / 2) = 1 / 2"
  "binary64 1 = 1"
  by code_simp+

lemma py_round_examples:
  "py_round (binary64 (1 / 8)) 2 = binary64 (12 / 100)"
  "py_round (binary64 (1 / 40)) 2 = binary64 (3 / 100)"
  "py_round (binary64 (137 / 200)) 2 = binary64 (69 / 100)"
  by code_simp+

lemma py_round2_decimal:
  assumes "0 \<le> x" "x \<le> 1"
  shows "\<exists>k. 0 \<le> k \<and> k \<le> 100 \<and> py_round x 2 = binary64 (of_int k / 100) \<and>
           \<bar>of_int k / 100 - x\<bar> \<le> 1 / 200"
proof -
  define k where "k = round_half_even (x * 10 ^ 2)"
  have "round_half_even (of_int 0) \<le> k"
    unfolding k_def using assms by (intro rhe_mono) simp
  then have lo: "0 \<le> k" by (simp only: rhe_of_int)
  have "k \<le> round_half_even (of_int 100)"
    unfolding k_def using assms by (intro rhe_mono) simp
  then have hi: "k \<le> 100" by (simp only: rhe_of_int)
  have "\<bar>of_int k - x * 10 ^ 2\<bar> \<le> 1 / 2"
    unfolding k_def by (rule rhe_err)
  then have "\<bar>of_int k / 100 - x\<bar> \<le> 1 / 200"
    by (simp add: abs_le_iff field_simps)
  moreover have "py_round x 2 = binary64 (of_int k / 100)"
    by (simp add: py_round_def k_def)
  ultimately show ?thesis using lo hi by blast
qed

text \<open>
  Rounding a float quotient of two sizes to two places picks a nearest hundredth of the
  exact fraction, as long as the denominator stays below \<open>2^45\<close>.
\<close>

lemma nearest_hundredth:
  fixes m n :: nat and k :: int and q :: rat
  assumes n: "0 < n" "n \<le> 2 ^ 45"
    and k: "\<bar>of_int k / 100 - q\<bar> \<le> 1 / 200"
    and q: "\<bar>q - of_nat m / of_nat n\<bar> \<le> 1 / 2 ^ 53"
  shows "\<bar>of_int k / 100 - (of_nat m / of_nat n :: rat)\<bar> \<le> 1 / 200"
proof -
  define N :: rat where "N = of_nat n"
  define i :: int where "i = 2 * k * int n - 200 * int m"
  have "(of_nat n :: rat) \<le> of_nat (2 ^ 45)"
    using n(2) by (simp only: of_nat_le_iff)
  then have N: "0 < N" "N \<le> 2 ^ 45"
    using n(1) by (simp_all only: N_def of_nat_power of_nat_numeral of_nat_0_less_iff)
  from k q have "\<bar>of_int k / 100 - of_nat m / N\<bar> \<le> 1 / 200 + 1 / 2 ^ 53"
    unfolding N_def by linarith
  then have bound: "\<bar>of_int k / 100 - of_nat m / N\<bar> * (200 * N) \<le> (1 / 200 + 1 / 2 ^ 53) * (200 * N)"
    using N(1) by (intro mult_right_mono) simp_all
  have prod: "(of_int k / 100 - of_nat m / N) * (200 * N) = of_int i"
    using N(1) by (simp add: i_def N_def field_simps)
  have "\<bar>(of_int i :: rat)\<bar> = \<bar>(of_int k / 100 - of_nat m / N) * (200 * N)\<bar>"
    by (simp only: prod)
  also have "\<dots> = \<bar>of_int k / 100 - of_nat m / N\<bar> * (200 * N)"
    using N(1) by (simp add: abs_mult)
  also note bound
  also have "(1 / 200 + 1 / 2 ^ 53) * (200 * N) < N + 1"
    using N by (simp add: field_simps)
  finally have "\<bar>(of_int i :: rat)\<bar> < N + 1" .
  then have "(of_int \<bar>i\<bar> :: rat) < of_int (int n + 1)"
    by (simp add: N_def)
  then have "\<bar>i\<bar> < int n + 1"
    by (simp only: of_int_less_iff)
  then have "\<bar>i\<bar> \<le> int n"
    by simp
  then have "(of_int \<bar>i\<bar> :: rat) \<le> of_int (int n)"
    by (simp only: of_int_le_iff)
  then have le: "\<bar>(of_int i :: rat)\<bar> \<le> N"
    by (simp add: N_def)
  have "of_int k / 100 - of_nat m / N = of_int i / (200 * N)"
    using N(1) by (simp add: i_def N_def field_simps)
  then have "\<bar>of_int k / 100 - of_nat m / N\<bar> = \<bar>of_int i\<bar> / (200 * N)"
    using N(1) by (simp add: abs_divide)
  also have "\<dots> \<le> N / (200 * N)"
    using le N(1) by (intro divide_right_mono) simp_all
  also have "\<dots> = 1 / 200"
    using N(1) by simp
  finally show ?thesis
    by (simp only: N_def)
qed

text \<open>Two fractions with denominators \<open>b\<close> and \<open>n\<close> that differ are at least \<open>1 / (b * n)\<close> apart.\<close>

lemma fraction_gap:
  fixes a b m n :: nat
  assumes "0 < b" "0 < n" "a * n < b * m"
  shows "(of_nat a / of_nat b :: rat) + 1 / (of_nat b * of_nat n) \<le> of_nat m / of_nat n"
proof -
  from assms(3) have "a * n + 1 \<le> b * m" by simp
  then have "(of_nat (a * n + 1) :: rat) \<le> of_nat (b * m)"
    by (simp only: of_nat_le_iff)
  then have le: "(of_nat a * of_nat n + 1 :: rat) \<le> of_nat b * of_nat m"
    by simp
  have pos: "(0::rat) < of_nat b * of_nat n"
    using assms by simp
  have "(of_nat a / of_nat b :: rat) + 1 / (of_nat b * of_nat n)
      = (of_nat a * of_nat n + 1) / (of_nat b * of_nat n)"
    using assms by (simp add: field_simps)
  also have "\<dots> \<le> (of_nat b * of_nat m) / (of_nat b * of_nat n)"
    using le pos by (intro divide_right_mono) simp_all
  also have "\<dots> = of_nat m / of_nat n"
    using assms by simp
  finally show ?thesis .
qed

lemma fraction_gap_below:
  fixes a b m n :: nat
  assumes "0 < b" "0 < n" "b * m < a * n"
  shows "(of_nat m / of_nat n :: rat) \<le> of_nat a / of_nat b - 1 / (of_nat b * of_nat n)"
proof -
  have "(of_nat m / of_nat n :: rat) + 1 / (of_nat n * of_nat b) \<le> of_nat a / of_nat b"
    using assms by (intro fraction_gap) (simp_all add: mult.commute)
  then show ?thesis by (simp add: mult.commute)
qed

lemma small_denominator:
  fixes n :: nat and c :: rat
  assumes "0 < n" "n \<le> 2 ^ 49" "0 < c"
  shows "1 / (c * 2 ^ 49) \<le> 1 / (c * of_nat n)"
proof -
  have "(of_nat n :: rat) \<le> of_nat (2 ^ 49)"
    using assms(2) by (simp only: of_nat_le_iff)
  then have "(of_nat n :: rat) \<le> 2 ^ 49"
    by (simp only: of_nat_power of_nat_numeral)
  moreover have "(0::rat) < of_nat n"
    using assms(1) by simp
  ultimately show ?thesis
    using assms(3) by (intro divide_left_mono mult_left_mono mult_pos_pos) simp_all
qed

lemma above_0_7:
  assumes "x \<le> 1" "7 / 10 + 1 / (10 * 2 ^ 49) \<le> x"
  shows "float_0_7 < binary64 x"
proof -
  have "0 \<le> x" using assms(2) by simp
  then have "\<bar>binary64 x - x\<bar> \<le> 1 / 2 ^ 53"
    using assms(1) by (rule binary64_err)
  then have "x - 1 / 2 ^ 53 \<le> binary64 x"
    by (simp only: abs_le_iff) linarith
  with assms(2) show ?thesis
    by (simp add: float_0_7_value)
qed

lemma below_0_7:
  assumes "0 \<le> x" "x \<le> 7 / 10 - 1 / (10 * 2 ^ 49)"
  shows "binary64 x \<le> float_0_7"
proof -
  have "x \<le> 1" using assms(2) by simp
  with assms(1) have "\<bar>binary64 x - x\<bar> \<le> 1 / 2 ^ 53"
    by (rule binary64_err)
  then have "binary64 x \<le> x + 1 / 2 ^ 53"
    by (simp only: abs_le_iff) linarith
  with assms(2) show ?thesis
    by (simp add: float_0_7_value)
qed

lemma above_0_5:
  assumes "x \<le> 1" "1 / 2 + 1 / (2 * 2 ^ 49) \<le> x"
  shows "float_0_5 < binary64 x"
proof -
  have "0 \<le> x" using assms(2) by simp
  then have "\<bar>binary64 x - x\<bar> \<le> 1 / 2 ^ 53"
    using assms(1) by (rule binary64_err)
  then have "x - 1 / 2 ^ 53 \<le> binary64 x"
    by (simp only: abs_le_iff) linarith
  with assms(2) show ?thesis
    by (simp add: float_0_5_half)
qed

lemma below_0_5:
  assumes "0 \<le> x" "x \<le> 1 / 2 - 1 / (2 * 2 ^ 49)"
  shows "binary64 x \<le> float_0_5"
proof -
  have "x \<le> 1" using assms(2) by simp
  with assms(1) have "\<bar>binary64 x - x\<bar> \<le> 1 / 2 ^ 53"
    by (rule binary64_err)
  then have "binary64 x \<le> x + 1 / 2 ^ 53"
    by (simp only: abs_le_iff) linarith
  with assms(2) show ?thesis
    by (simp add: float_0_5_half)
qed

lemma tier_0_7_exact:
  assumes n: "0 < n" and mn: "m \<le> n" and big: "n \<le> 2 ^ 49"
  shows "float_0_7 < binary64 (of_nat m / of_nat n) \<longleftrightarrow> 7 * n < 10 * m"
proof -
  define x :: rat where "x = of_nat m / of_nat n"
  have x01: "0 \<le> x" "x \<le> 1"
    using n mn by (simp_all add: x_def divide_le_eq_1)
  have step: "1 / (10 * 2 ^ 49) \<le> 1 / (10 * (of_nat n :: rat))"
    using n big by (intro small_denominator) simp_all
  consider (gt) "7 * n < 10 * m" | (eq) "7 * n = 10 * m" | (lt) "10 * m < 7 * n"
    by linarith
  then show ?thesis
  proof cases
    case gt
    have "(of_nat 7 / of_nat 10 :: rat) + 1 / (of_nat 10 * of_nat n) \<le> x"
      unfolding x_def using n gt by (intro fraction_gap) simp_all
    with step have "7 / 10 + 1 / (10 * 2 ^ 49) \<le> x"
      by simp
    with x01 have "float_0_7 < binary64 x"
      by (intro above_0_7)
    with gt show ?thesis by (simp add: x_def)
  next
    case eq
    then have "(of_nat (7 * n) :: rat) = of_nat (10 * m)"
      by (simp only:)
    then have r: "(7 * of_nat n :: rat) = 10 * of_nat m"
      by simp
    have "(0::rat) < of_nat n"
      using n by simp
    with r have "x = 7 / 10"
      unfolding x_def by (simp add: field_simps)
    then have "binary64 (of_nat m / of_nat n) = float_0_7"
      by (simp only: x_def [symmetric] float_0_7_def)
    with eq show ?thesis
      by simp
  next
    case lt
    have "x \<le> (of_nat 7 / of_nat 10 :: rat) - 1 / (of_nat 10 * of_nat n)"
      unfolding x_def using n lt by (intro fraction_gap_below) simp_all
    with step have "x \<le> 7 / 10 - 1 / (10 * 2 ^ 49)"
      by simp
    with x01 have "binary64 x \<le> float_0_7"
      by (intro below_0_7)
    with lt show ?thesis by (simp add: x_def)
  qed
qed

lemma tier_0_5_exact:
  assumes n: "0 < n" and mn: "m \<le> n" and big: "n \<le> 2 ^ 49"
  shows "float_0_5 < binary64 (of_nat m / of_nat n) \<longleftrightarrow> n < 2 * m"
proof -
  define x :: rat where "x = of_nat m / of_nat n"
  have x01: "0 \<le> x" "x \<le> 1"
    using n mn by (simp_all add: x_def divide_le_eq_1)
  have step: "1 / (2 * 2 ^ 49) \<le> 1 / (2 * (of_nat n :: rat))"
    using n big by (intro small_denominator) simp_all
  consider (gt) "1 * n < 2 * m" | (eq) "n = 2 * m" | (lt) "2 * m < 1 * n"
    by linarith
  then show ?thesis
  proof cases
    case gt
    have "(of_nat 1 / of_nat 2 :: rat) + 1 / (of_nat 2 * of_nat n) \<le> x"
      unfolding x_def using n gt by (intro fraction_gap) simp_all
    with step have "1 / 2 + 1 / (2 * 2 ^ 49) \<le> x"
      by simp
    with x01 have "float_0_5 < binary64 x"
      by (intro above_0_5)
    with gt show ?thesis by (simp add: x_def)
  next
    case eq
    then have "(of_nat n :: rat) = of_nat (2 * m)"
      by (simp only:)
    then have r: "(of_nat n :: rat) = 2 * of_nat m"
      by simp
    have "(0::rat) < of_nat n"
      using n by simp
    with r have "x = 5 / 10"
      unfolding x_def by (simp add: field_simps)
    then have "binary64 (of_nat m / of_nat n) = float_0_5"
      by (simp only: x_def [symmetric] float_0_5_def)
    with eq show ?thesis
      by simp
  next
    case lt
    have "x \<le> (of_nat 1 / of_nat 2 :: rat) - 1 / (of_nat 2 * of_nat n)"
      unfolding x_def using n lt by (intro fraction_gap_below) simp_all
    with step have "x \<le> 1 / 2 - 1 / (2 * 2 ^ 49)"
      by simp
    with x01 have "binary64 x \<le> float_0_5"
      by (intro below_0_5)
    with lt show ?thesis by (simp add: x_def)
  qed
qed

subsection \<open>Listing sets, lowering entries\<close>

lemma set_listing_ascending: "set_listing ascending"
  by (simp add: set_listing_def ascending_def)

lemma set_listing_descending: "set_listing descending"
  by (simp add: set_listing_def descending_def)

lemma set_listing_set: "set_listing lo \<Longrightarrow> set (lo (set xs)) = set xs"
  by (simp add: set_listing_def)

lemma set_listing_empty: "set_listing lo \<Longrightarrow> lo {} = []"
proof -
  assume "set_listing lo"
  then have "set (lo {}) = {}"
    unfolding set_listing_def by blast
  then show ?thesis by simp
qed

lemma lower_entries_JStr: "lower_entries (map JStr xs) = Inr (map lower xs)"
  by (induction xs) simp_all

lemma lower_entries_cases:
  "lower_entries xs =
     (if list_all is_str xs then Inr (map lower (map str_of xs)) else Inl AttributeError)"
  by (induction xs rule: lower_entries.induct) simp_all

lemma match_skills_unfold:
  "match_skills lo cs rs =
     Inr \<lparr>match_score = py_round (raw_score cs rs) 2,
          matched_skills = lo (skill_set cs \<inter> skill_set rs),
          skill_gaps = lo (skill_set rs - skill_set cs),
          recommendations =
            (if skill_set rs - skill_set cs \<noteq> {}
             then [''Consider learning: '' @
                     join '', '' (take 3 (lo (skill_set rs - skill_set cs)))]
             else []) @ [tier_message (raw_score cs rs)]\<rparr>"
  by (simp add: match_skills_def raw_score_def skill_set_def tier_message_def Let_def
      py_truediv_def card_gt_0_iff strong_match_def good_match_def focus_first_def)

lemma do_POST_strings: "do_POST lo (map JStr cs) (map JStr rs) = match_skills lo cs rs"
  by (simp add: do_POST_def match_skills_def lower_entries_JStr Let_def)

lemma do_POST_cases:
  "do_POST lo xs ys =
     (if list_all is_str xs \<and> list_all is_str ys
      then match_skills lo (map str_of xs) (map str_of ys)
      else Inl AttributeError)"
  by (simp add: do_POST_def match_skills_def lower_entries_cases Let_def)

lemma handler_match_skills_do_POST: "handler_match_skills lo xs ys = do_POST lo xs ys"
  by (simp add: handler_match_skills_def do_POST_def)

text \<open>What the two matchers return on lists of strings, field by field.\<close>

lemma matcher_returns:
  obtains r where
    "match_skills lo cs rs = Inr r"
    "do_POST lo (map JStr cs) (map JStr rs) = Inr r"
    "match_score r = py_round (raw_score cs rs) 2"
    "matched_skills r = lo (skill_set cs \<inter> skill_set rs)"
    "skill_gaps r = lo (skill_set rs - skill_set cs)"
    "recommendations r =
       (if skill_set rs - skill_set cs \<noteq> {}
        then [''Consider learning: '' @ join '', '' (take 3 (lo (skill_set rs - skill_set cs)))]
        else []) @ [tier_message (raw_score cs rs)]"
proof -
  let ?r = "\<lparr>match_score = py_round (raw_score cs rs) 2,
    matched_skills = lo (skill_set cs \<inter> skill_set rs),
    skill_gaps = lo (skill_set rs - skill_set cs),
    recommendations =
      (if skill_set rs - skill_set cs \<noteq> {}
       then [''Consider learning: '' @ join '', '' (take 3 (lo (skill_set rs - skill_set cs)))]
       else []) @ [tier_message (raw_score cs rs)]\<rparr>"
  have "match_skills lo cs rs = Inr ?r"
    by (rule match_skills_unfold)
  moreover from this have "do_POST lo (map JStr cs) (map JStr rs) = Inr ?r"
    by (simp only: do_POST_strings)
  ultimately show thesis
    by (rule that) simp_all
qed

subsection \<open>The unrounded score\<close>

lemma skill_set_finite: "finite (skill_set xs)"
  by (simp add: skill_set_def)

lemma matched_card_le: "card (skill_set cs \<inter> skill_set rs) \<le> card (skill_set rs)"
  by (intro card_mono) (simp_all add: skill_set_finite)

lemma raw_score_range: "0 \<le> raw_score cs rs \<and> raw_score cs rs \<le> 1"
  unfolding raw_score_def using quotient_range [OF matched_card_le [of cs rs]] by simp

subsection \<open>Lowercase, listings and messages\<close>

lemma lower_char_idem: "lower_char (lower_char c) = lower_char c"
  by (simp add: lower_char_def Let_def)

lemma lower_idem: "lower (lower s) = lower s"
  by (simp add: lower_def lower_char_idem)

lemma map_lower_fixed: "set xs \<subseteq> skill_set ys \<Longrightarrow> map lower xs = xs"
  by (induction xs) (auto simp: skill_set_def lower_idem)

lemma py_round_zero: "py_round 0 n = 0"
  by (simp add: py_round_def round_half_even_def binary64_def)

lemma matched_listing:
  "set_listing lo \<Longrightarrow>
     set (lo (skill_set cs \<inter> skill_set rs)) = skill_set cs \<inter> skill_set rs \<and>
     distinct (lo (skill_set cs \<inter> skill_set rs))"
  by (simp add: set_listing_def skill_set_finite)

lemma gaps_listing:
  "set_listing lo \<Longrightarrow>
     set (lo (skill_set rs - skill_set cs)) = skill_set rs - skill_set cs \<and>
     distinct (lo (skill_set rs - skill_set cs))"
  by (simp add: set_listing_def skill_set_finite)

lemma tier_message_cases:
  "tier_message q = strong_match \<or> tier_message q = good_match \<or> tier_message q = focus_first"
  by (simp add: tier_message_def)

lemma is_tier_tier_message: "is_tier (tier_message q)"
  using tier_message_cases [of q] by (simp add: is_tier_def)

lemma gap_notice_no_tier: "\<not> is_tier (''Consider learning: '' @ s)"
  by (simp add: is_tier_def strong_match_def good_match_def focus_first_def)

section \<open>The claims\<close>

text \<open>
  In the statements \<open>cs\<close> is the candidate's list of skills and \<open>rs\<close> the required
  one, both lists of strings, and \<open>r\<close> is the response that the FastAPI route
  \<open>match_skills\<close> returns on them; each statement says first that \<open>do_POST\<close>
  returns the same \<open>r\<close> on the same lists. Lists \<open>xs\<close> and \<open>ys\<close> are decoded
  JSON, with entries of any kind.
\<close>

text \<open>
  C1. The score of the response is \<open>0.0\<close> when the lowercased requirement set is empty;
  otherwise it is \<^verbatim>\<open>round(len(matched) / len(internship_skills), 2)\<close>. It always lies
  in \<open>[0, 1]\<close>. It is the float of a decimal \<open>k/100\<close>, from which it differs by
  \<open>2^-53\<close> at most, and \<open>k/100\<close> is a hundredth nearest to the exact fraction
  matched/required: within \<open>1/200\<close> of it for a requirement set of at most \<open>2^45\<close>
  skills, and within \<open>1/200 + 2^-53\<close> for any.
\<close>

theorem score_rounded_quotient:
  "\<exists>r. match_skills list_of cs rs = Inr r \<and>
       do_POST list_of (map JStr cs) (map JStr rs) = Inr r \<and>
       (if skill_set rs = {} then match_score r = 0
        else \<exists>q. py_truediv (card (skill_set cs \<inter> skill_set rs)) (card (skill_set rs)) = Inr q \<and>
                 match_score r = py_round q 2) \<and>
       0 \<le> match_score r \<and> match_score r \<le> 1 \<and>
       (\<exists>k. 0 \<le> k \<and> k \<le> 100 \<and> match_score r = binary64 (of_int k / 100) \<and>
          \<bar>match_score r - of_int k / 100\<bar> \<le> 1 / 2 ^ 53 \<and>
          \<bar>of_int k / 100 -
             (if skill_set rs = {} then 0
              else of_nat (card (skill_set cs \<inter> skill_set rs)) / of_nat (card (skill_set rs))
                :: rat)\<bar>
            \<le> 1 / 200 + 1 / 2 ^ 53 \<and>
          (card (skill_set rs) \<le> 2 ^ 45 \<longrightarrow>
             \<bar>of_int k / 100 -
                (if skill_set rs = {} then 0
                 else of_nat (card (skill_set cs \<inter> skill_set rs)) / of_nat (card (skill_set rs))
                   :: rat)\<bar>
               \<le> 1 / 200))"
proof -
  let ?q = "raw_score cs rs"
  let ?x = "if skill_set rs = {} then 0
            else (of_nat (card (skill_set cs \<inter> skill_set rs)) / of_nat (card (skill_set rs)) :: rat)"
  obtain r where r: "match_skills list_of cs rs = Inr r"
      "do_POST list_of (map JStr cs) (map JStr rs) = Inr r"
      and s: "match_score r = py_round ?q 2"
    by (rule matcher_returns)
  have q01: "0 \<le> ?q" "?q \<le> 1"
    using raw_score_range [of cs rs] by simp_all
  have first: "if skill_set rs = {} then match_score r = 0
      else \<exists>q. py_truediv (card (skill_set cs \<inter> skill_set rs)) (card (skill_set rs)) = Inr q \<and>
               match_score r = py_round q 2"
    by (simp add: s raw_score_def py_round_zero py_truediv_def skill_set_finite)
  have range: "0 \<le> match_score r \<and> match_score r \<le> 1"
    unfolding s using q01 by (rule py_round2_range)
  have x01: "0 \<le> ?x" "?x \<le> 1"
    using matched_card_le [of cs rs] by (auto simp: divide_le_eq_1)
  have qx: "\<bar>?q - ?x\<bar> \<le> 1 / 2 ^ 53"
  proof (cases "skill_set rs = {}")
    case True
    then show ?thesis by (simp add: raw_score_def)
  next
    case False
    then have "?q = binary64 ?x"
      by (simp add: raw_score_def)
    with binary64_err [OF x01] show ?thesis by simp
  qed
  obtain k where k: "0 \<le> k" "k \<le> 100" "py_round ?q 2 = binary64 (of_int k / 100)"
      "\<bar>of_int k / 100 - ?q\<bar> \<le> 1 / 200"
    using py_round2_decimal [OF q01] by blast
  from k(4) qx have d: "\<bar>of_int k / 100 - ?x\<bar> \<le> 1 / 200 + 1 / 2 ^ 53"
    by linarith
  have sk: "match_score r = binary64 (of_int k / 100)"
    using s k(3) by (simp only:)
  have "\<bar>binary64 (of_int k / 100) - of_int k / 100\<bar> \<le> 1 / 2 ^ 53"
    using k(1,2) by (intro binary64_err) simp_all
  then have near: "\<bar>match_score r - of_int k / 100\<bar> \<le> 1 / 2 ^ 53"
    by (simp only: sk)
  have exact: "card (skill_set rs) \<le> 2 ^ 45 \<longrightarrow> \<bar>of_int k / 100 - ?x\<bar> \<le> 1 / 200"
  proof (cases "skill_set rs = {}")
    case True
    then have "?q = 0" by (simp add: raw_score_def)
    with k(4) True show ?thesis by simp
  next
    case False
    then have n: "0 < card (skill_set rs)"
      by (simp add: card_gt_0_iff skill_set_finite)
    from False qx have qq: "\<bar>?q - of_nat (card (skill_set cs \<inter> skill_set rs)) / of_nat (card (skill_set rs))\<bar>
        \<le> 1 / 2 ^ 53"
      by simp
    have "\<bar>of_int k / 100 -
          (of_nat (card (skill_set cs \<inter> skill_set rs)) / of_nat (card (skill_set rs)) :: rat)\<bar>
        \<le> 1 / 200" if "card (skill_set rs) \<le> 2 ^ 45"
      using n that k(4) qq by (rule nearest_hundredth)
    with False show ?thesis
      by (simp only: if_False) blast
  qed
  from k(1,2) sk near d exact
  have "0 \<le> k \<and> k \<le> 100 \<and> match_score r = binary64 (of_int k / 100) \<and>
      \<bar>match_score r - of_int k / 100\<bar> \<le> 1 / 2 ^ 53 \<and>
      \<bar>of_int k / 100 - ?x\<bar> \<le> 1 / 200 + 1 / 2 ^ 53 \<and>
      (card (skill_set rs) \<le> 2 ^ 45 \<longrightarrow> \<bar>of_int k / 100 - ?x\<bar> \<le> 1 / 200)"
    by (intro conjI)
  then have ex: "\<exists>k. 0 \<le> k \<and> k \<le> 100 \<and> match_score r = binary64 (of_int k / 100) \<and>
      \<bar>match_score r - of_int k / 100\<bar> \<le> 1 / 2 ^ 53 \<and>
      \<bar>of_int k / 100 - ?x\<bar> \<le> 1 / 200 + 1 / 2 ^ 53 \<and>
      (card (skill_set rs) \<le> 2 ^ 45 \<longrightarrow> \<bar>of_int k / 100 - ?x\<bar> \<le> 1 / 200)"
    by (rule exI)
  from range have r1: "0 \<le> match_score r" and r2: "match_score r \<le> 1"
    by simp_all
  show ?thesis
    by (intro exI [of _ r] conjI) (rule r first r1 r2 ex)+
qed

theorem score_rounded_quotient_witness:
  "(\<exists>r. do_POST ascending [JStr ''Python'', JStr ''SQL''] [JStr ''python'', JStr ''sql''] = Inr r \<and>
        match_score r = 1) \<and>
   (\<exists>r. do_POST ascending [JStr ''PYTHON'']
          [JStr ''python'', JStr ''SQL'', JStr ''react'', JStr ''Docker''] = Inr r \<and>
        match_score r = 1 / 4) \<and>
   (\<exists>r. do_POST ascending [JStr ''PYTHON'']
          [JStr ''python'', JStr ''SQL'', JStr ''react'', JStr ''Docker'', JStr ''go'', JStr ''Rust'',
           JStr ''java'', JStr ''AWS''] = Inr r \<and>
        match_score r = 1080863910568919 / 9007199254740992 \<and>
        \<bar>match_score r - 12 / 100\<bar> \<le> 1 / 2 ^ 53) \<and>
   (\<exists>r. do_POST ascending [JStr ''python''] [] = Inr r \<and> match_score r = 0)"
proof -
  let ?c1 = "[''Python'', ''SQL'']" and ?r1 = "[''python'', ''sql'']"
  let ?c2 = "[''PYTHON'']" and ?r2 = "[''python'', ''SQL'', ''react'', ''Docker'']"
  let ?r3 = "[''python'', ''SQL'', ''react'', ''Docker'', ''go'', ''Rust'', ''java'', ''AWS'']"
  have n1: "skill_set ?r1 \<noteq> {}" and n2: "skill_set ?r2 \<noteq> {}" and n3: "skill_set ?r3 \<noteq> {}"
    by (simp_all add: skill_set_def)
  have d1: "py_truediv (card (skill_set ?c1 \<inter> skill_set ?r1)) (card (skill_set ?r1)) = Inr 1"
    by code_simp
  have d2: "py_truediv (card (skill_set ?c2 \<inter> skill_set ?r2)) (card (skill_set ?r2)) = Inr (1 / 4)"
    by code_simp
  have d3: "py_truediv (card (skill_set ?c2 \<inter> skill_set ?r3)) (card (skill_set ?r3)) = Inr (1 / 8)"
    by code_simp
  have p1: "py_round 1 2 = 1"
    by code_simp
  have p2: "py_round (1 / 4) 2 = 1 / 4"
    by code_simp
  have p3: "py_round (1 / 8) 2 = 1080863910568919 / 9007199254740992"
    by code_simp
  have a: "\<exists>r. do_POST ascending [JStr ''Python'', JStr ''SQL''] [JStr ''python'', JStr ''sql''] = Inr r \<and>
        match_score r = 1"
  proof -
    from score_rounded_quotient [of ascending ?c1 ?r1] n1
    obtain r q where "do_POST ascending (map JStr ?c1) (map JStr ?r1) = Inr r"
        "py_truediv (card (skill_set ?c1 \<inter> skill_set ?r1)) (card (skill_set ?r1)) = Inr q"
        "match_score r = py_round q 2"
      by (simp only: if_False) blast
    then have "Inr q = (Inr 1 :: error + rat)" "match_score r = py_round q 2"
        "do_POST ascending [JStr ''Python'', JStr ''SQL''] [JStr ''python'', JStr ''sql''] = Inr r"
      using d1 by simp_all
    then have "match_score r = py_round 1 2"
      by (simp only: sum.inject)
    with p1 \<open>do_POST ascending [JStr ''Python'', JStr ''SQL''] [JStr ''python'', JStr ''sql''] = Inr r\<close>
    show ?thesis by (intro exI [of _ r] conjI) (simp_all only:)
  qed
  have b: "\<exists>r. do_POST ascending [JStr ''PYTHON'']
          [JStr ''python'', JStr ''SQL'', JStr ''react'', JStr ''Docker''] = Inr r \<and>
        match_score r = 1 / 4"
  proof -
    from score_rounded_quotient [of ascending ?c2 ?r2] n2
    obtain r q where "do_POST ascending (map JStr ?c2) (map JStr ?r2) = Inr r"
        "py_truediv (card (skill_set ?c2 \<inter> skill_set ?r2)) (card (skill_set ?r2)) = Inr q"
        "match_score r = py_round q 2"
      by (simp only: if_False) blast
    then have "Inr q = (Inr (1 / 4) :: error + rat)" "match_score r = py_round q 2"
        "do_POST ascending [JStr ''PYTHON'']
          [JStr ''python'', JStr ''SQL'', JStr ''react'', JStr ''Docker''] = Inr r"
      using d2 by simp_all
    then have "match_score r = py_round (1 / 4) 2"
      by (simp only: sum.inject)
    with p2 \<open>do_POST ascending [JStr ''PYTHON'']
          [JStr ''python'', JStr ''SQL'', JStr ''react'', JStr ''Docker''] = Inr r\<close>
    show ?thesis by (intro exI [of _ r] conjI) (simp_all only:)
  qed
  have c: "\<exists>r. do_POST ascending [JStr ''PYTHON'']
          [JStr ''python'', JStr ''SQL'', JStr ''react'', JStr ''Docker'', JStr ''go'', JStr ''Rust'',
           JStr ''java'', JStr ''AWS''] = Inr r \<and>
        match_score r = 1080863910568919 / 9007199254740992 \<and>
        \<bar>match_score r - 12 / 100\<bar> \<le> 1 / 2 ^ 53"
  proof -
    from score_rounded_quotient [of ascending ?c2 ?r3] n3
    obtain r q where "do_POST ascending (map JStr ?c2) (map JStr ?r3) = Inr r"
        "py_truediv (card (skill_set ?c2 \<inter> skill_set ?r3)) (card (skill_set ?r3)) = Inr q"
        "match_score r = py_round q 2"
      by (simp only: if_False) blast
    then have "Inr q = (Inr (1 / 8) :: error + rat)" "match_score r = py_round q 2"
        and post: "do_POST ascending [JStr ''PYTHON'']
          [JStr ''python'', JStr ''SQL'', JStr ''react'', JStr ''Docker'', JStr ''go'', JStr ''Rust'',
           JStr ''java'', JStr ''AWS''] = Inr r"
      using d3 by simp_all
    then have "match_score r = py_round (1 / 8) 2"
      by (simp only: sum.inject)
    with p3 have v: "match_score r = 1080863910568919 / 9007199254740992"
      by (simp only:)
    then have "\<bar>match_score r - 12 / 100\<bar> \<le> 1 / 2 ^ 53"
      by simp
    with v post show ?thesis by (intro exI [of _ r] conjI)
  qed
  have d: "\<exists>r. do_POST ascending [JStr ''python''] [] = Inr r \<and> match_score r = 0"
  proof -
    from score_rounded_quotient [of ascending "[''python'']" "[]"]
    obtain r where "do_POST ascending (map JStr [''python'']) (map JStr []) = Inr r"
        "if skill_set [] = {} then match_score r = 0
         else \<exists>q. py_truediv (card (skill_set [''python''] \<inter> skill_set [])) (card (skill_set [])) = Inr q \<and>
                  match_score r = py_round q 2"
      by blast
    then show ?thesis by (simp add: skill_set_def)
  qed
  from a b c d show ?thesis
    by (intro conjI)
qed

text \<open>
  C2. With both lists lowercased entry by entry, the matched skills returned are the
  intersection of the candidate set and the requirement set, the skill gaps returned are
  the requirement set minus the candidate set, each skill is listed once, and every
  returned skill is in lowercase (lowering it changes nothing).
\<close>

theorem matched_and_gaps:
  assumes "set_listing list_of"
  shows "\<exists>r. match_skills list_of cs rs = Inr r \<and>
           do_POST list_of (map JStr cs) (map JStr rs) = Inr r \<and>
           set (matched_skills r) = skill_set cs \<inter> skill_set rs \<and>
           set (skill_gaps r) = skill_set rs - skill_set cs \<and>
           distinct (matched_skills r) \<and> distinct (skill_gaps r) \<and>
           map lower (matched_skills r) = matched_skills r \<and>
           map lower (skill_gaps r) = skill_gaps r"
proof -
  obtain r where r: "match_skills list_of cs rs = Inr r"
      "do_POST list_of (map JStr cs) (map JStr rs) = Inr r"
      and f: "matched_skills r = list_of (skill_set cs \<inter> skill_set rs)"
      "skill_gaps r = list_of (skill_set rs - skill_set cs)"
    by (rule matcher_returns)
  have m: "set (matched_skills r) = skill_set cs \<inter> skill_set rs" "distinct (matched_skills r)"
    unfolding f using matched_listing [OF assms] by simp_all
  have g: "set (skill_gaps r) = skill_set rs - skill_set cs" "distinct (skill_gaps r)"
    unfolding f using gaps_listing [OF assms] by simp_all
  have lm: "map lower (matched_skills r) = matched_skills r"
    by (rule map_lower_fixed [of _ rs]) (simp add: m)
  have lg: "map lower (skill_gaps r) = skill_gaps r"
    by (rule map_lower_fixed [of _ rs]) (auto simp: g)
  show ?thesis
    by (intro exI [of _ r] conjI) (rule r m g lm lg)+
qed

theorem matched_and_gaps_witness:
  "set_listing ascending \<and>
   (\<exists>r. do_POST ascending [JStr ''PYTHON'', JStr ''Go''] [JStr ''python'', JStr ''SQL''] = Inr r \<and>
        set (matched_skills r) = {''python''} \<and> set (skill_gaps r) = {''sql''} \<and>
        map lower (matched_skills r) = matched_skills r)"
proof -
  have 1: "skill_set [''PYTHON'', ''Go''] \<inter> skill_set [''python'', ''SQL''] = {''python''}"
    by code_simp
  have 2: "skill_set [''python'', ''SQL''] - skill_set [''PYTHON'', ''Go''] = {''sql''}"
    by code_simp
  show ?thesis
    using matched_and_gaps [OF set_listing_ascending, of "[''PYTHON'', ''Go'']" "[''python'', ''SQL'']"]
      set_listing_ascending
    by (auto simp: 1 2)
qed

text \<open>
  C3, as the claim has it, with the tier read off the rounded score of the response:
  refuted. With 19 of 27 required skills the response carries the score \<open>0.7\<close>, which
  the claim sends to the good-match message, and the strong-match message.
\<close>

theorem tier_by_rounded_score_counterexample:
  "match_skills ascending candidate_19 required_27 =
     Inr \<lparr>match_score = float_0_7,
          matched_skills = candidate_19,
          skill_gaps = [''sql'', ''t'', ''u'', ''v'', ''w'', ''x'', ''y'', ''z''],
          recommendations =
            [''Consider learning: sql, t, u'', ''Strong match! Apply with confidence.'']\<rparr> \<and>
   do_POST ascending (map JStr candidate_19) (map JStr required_27) =
     match_skills ascending candidate_19 required_27 \<and>
   float_0_5 < float_0_7"
  by code_simp

text \<open>
  C3, amended. Exactly one tier message is in the advisories, it is the last one, and
  it is chosen by the unrounded score \<open>q\<close> (\<open>0.0\<close> on an empty requirement set, else
  the float quotient): the strong-match message when \<open>q > 0.7\<close>, the good-match message
  when \<open>0.5 < q \<le> 0.7\<close>, the focus message when \<open>q \<le> 0.5\<close>. For a requirement set of
  at most \<open>2^49\<close> skills the float comparisons decide as the exact fraction
  matched/required does; in particular a quotient of exactly \<open>7/10\<close> gets the good-match
  message and one of exactly \<open>1/2\<close> the focus message.
\<close>

theorem tier_by_unrounded_score:
  "\<exists>r. match_skills list_of cs rs = Inr r \<and>
       do_POST list_of (map JStr cs) (map JStr rs) = Inr r \<and>
       filter is_tier (recommendations r) = [last (recommendations r)] \<and>
       (float_0_7 < raw_score cs rs \<longrightarrow> last (recommendations r) = strong_match) \<and>
       (float_0_5 < raw_score cs rs \<and> raw_score cs rs \<le> float_0_7 \<longrightarrow>
          last (recommendations r) = good_match) \<and>
       (raw_score cs rs \<le> float_0_5 \<longrightarrow> last (recommendations r) = focus_first) \<and>
       (card (skill_set rs) \<le> 2 ^ 49 \<longrightarrow>
          (7 * card (skill_set rs) < 10 * card (skill_set cs \<inter> skill_set rs) \<longrightarrow>
             last (recommendations r) = strong_match) \<and>
          (card (skill_set rs) < 2 * card (skill_set cs \<inter> skill_set rs) \<and>
           10 * card (skill_set cs \<inter> skill_set rs) \<le> 7 * card (skill_set rs) \<longrightarrow>
             last (recommendations r) = good_match) \<and>
          (2 * card (skill_set cs \<inter> skill_set rs) \<le> card (skill_set rs) \<longrightarrow>
             last (recommendations r) = focus_first))"
proof -
  let ?q = "raw_score cs rs"
  let ?m = "card (skill_set cs \<inter> skill_set rs)"
  let ?n = "card (skill_set rs)"
  obtain r where r: "match_skills list_of cs rs = Inr r"
      "do_POST list_of (map JStr cs) (map JStr rs) = Inr r"
      and recs: "recommendations r =
       (if skill_set rs - skill_set cs \<noteq> {}
        then [''Consider learning: '' @ join '', '' (take 3 (list_of (skill_set rs - skill_set cs)))]
        else []) @ [tier_message ?q]"
    by (rule matcher_returns)
  have l: "last (recommendations r) = tier_message ?q"
    by (simp add: recs)
  have "filter is_tier (recommendations r) = [tier_message ?q]"
    using gap_notice_no_tier [of "join '', '' (take 3 (list_of (skill_set rs - skill_set cs)))"]
    by (simp add: recs is_tier_tier_message)
  then have f: "filter is_tier (recommendations r) = [last (recommendations r)]"
    by (simp only: l)
  have half: "float_0_5 < float_0_7"
    by (simp add: float_0_5_half float_0_7_value)
  have distinct_messages: "strong_match \<noteq> good_match" "good_match \<noteq> focus_first"
    by (simp_all add: strong_match_def good_match_def focus_first_def)
  have t: "(float_0_7 < ?q \<longrightarrow> tier_message ?q = strong_match) \<and>
      (float_0_5 < ?q \<and> ?q \<le> float_0_7 \<longrightarrow> tier_message ?q = good_match) \<and>
      (?q \<le> float_0_5 \<longrightarrow> tier_message ?q = focus_first)"
    using half by (auto simp: tier_message_def)
  have e: "(7 * ?n < 10 * ?m \<longrightarrow> tier_message ?q = strong_match) \<and>
      (?n < 2 * ?m \<and> 10 * ?m \<le> 7 * ?n \<longrightarrow> tier_message ?q = good_match) \<and>
      (2 * ?m \<le> ?n \<longrightarrow> tier_message ?q = focus_first)" if big: "?n \<le> 2 ^ 49"
  proof (cases "?n = 0")
    case True
    then have "skill_set rs = {}"
      by (simp add: skill_set_finite)
    then have "?q = 0" "?m = 0"
      by (simp_all add: raw_score_def)
    with True t half show ?thesis
      by (simp add: float_0_5_half)
  next
    case False
    then have n: "0 < ?n" by simp
    from False have "skill_set rs \<noteq> {}" by auto
    then have q: "?q = binary64 (of_nat ?m / of_nat ?n)"
      by (simp add: raw_score_def)
    have 7: "float_0_7 < ?q \<longleftrightarrow> 7 * ?n < 10 * ?m"
      unfolding q using n matched_card_le big by (rule tier_0_7_exact)
    have 5: "float_0_5 < ?q \<longleftrightarrow> ?n < 2 * ?m"
      unfolding q using n matched_card_le big by (rule tier_0_5_exact)
    from t 7 5 show ?thesis
      by (simp add: not_less [symmetric] del: not_less)
  qed
  have p: "filter is_tier (recommendations r) = [last (recommendations r)] \<and>
       (float_0_7 < ?q \<longrightarrow> last (recommendations r) = strong_match) \<and>
       (float_0_5 < ?q \<and> ?q \<le> float_0_7 \<longrightarrow> last (recommendations r) = good_match) \<and>
       (?q \<le> float_0_5 \<longrightarrow> last (recommendations r) = focus_first) \<and>
       (?n \<le> 2 ^ 49 \<longrightarrow>
          (7 * ?n < 10 * ?m \<longrightarrow> last (recommendations r) = strong_match) \<and>
          (?n < 2 * ?m \<and> 10 * ?m \<le> 7 * ?n \<longrightarrow> last (recommendations r) = good_match) \<and>
          (2 * ?m \<le> ?n \<longrightarrow> last (recommendations r) = focus_first))"
    using f t e by (simp only: l) blast
  show ?thesis
    by (rule exI [of _ r]) (intro conjI r p)
qed

theorem tier_by_unrounded_score_witness:
  "card (skill_set [''python'', ''sql'']) \<le> 2 ^ 49 \<and>
   2 * card (skill_set [''Python''] \<inter> skill_set [''python'', ''sql''])
     \<le> card (skill_set [''python'', ''sql'']) \<and>
   (\<exists>r. do_POST descending [JStr ''Python''] [JStr ''python'', JStr ''sql''] = Inr r \<and>
        last (recommendations r) = focus_first) \<and>
   float_0_7 < raw_score candidate_19 required_27 \<and>
   (\<exists>r. do_POST ascending (map JStr candidate_19) (map JStr required_27) = Inr r \<and>
        last (recommendations r) = strong_match)"
proof -
  have 1: "card (skill_set [''python'', ''sql'']) = 2"
    by code_simp
  have 2: "card (skill_set [''Python''] \<inter> skill_set [''python'', ''sql'']) = 1"
    by code_simp
  have 3: "float_0_7 < raw_score candidate_19 required_27"
    by code_simp
  have a: "\<exists>r. do_POST descending [JStr ''Python''] [JStr ''python'', JStr ''sql''] = Inr r \<and>
        last (recommendations r) = focus_first"
    using tier_by_unrounded_score [of descending "[''Python'']" "[''python'', ''sql'']"]
    by (auto simp: 1 2)
  have b: "\<exists>r. do_POST ascending (map JStr candidate_19) (map JStr required_27) = Inr r \<and>
        last (recommendations r) = strong_match"
    using tier_by_unrounded_score [of ascending candidate_19 required_27] 3
    by auto
  show ?thesis
    using a b 3 by (simp add: 1 2)
qed

text \<open>
  C4. When there are gaps, the advisories are two strings: first the notice
  \<open>Consider learning: \<close> followed by the first three listed gaps at most (no fewer
  than one, no skill twice, all of them gaps), joined by a comma and a space; then the
  tier message. When there are no gaps, the advisories are the tier message alone.
\<close>

theorem advisory_shape:
  assumes "set_listing list_of"
  shows "\<exists>r. match_skills list_of cs rs = Inr r \<and>
           do_POST list_of (map JStr cs) (map JStr rs) = Inr r \<and>
           (skill_set rs - skill_set cs \<noteq> {} \<longrightarrow>
              recommendations r =
                [''Consider learning: '' @ join '', '' (take 3 (skill_gaps r)),
                 last (recommendations r)] \<and>
              length (take 3 (skill_gaps r)) = min 3 (card (skill_set rs - skill_set cs)) \<and>
              take 3 (skill_gaps r) \<noteq> [] \<and>
              distinct (take 3 (skill_gaps r)) \<and>
              set (take 3 (skill_gaps r)) \<subseteq> skill_set rs - skill_set cs) \<and>
           (skill_set rs - skill_set cs = {} \<longrightarrow>
              recommendations r = [last (recommendations r)]) \<and>
           is_tier (last (recommendations r))"
proof -
  let ?G = "skill_set rs - skill_set cs"
  obtain r where r: "match_skills list_of cs rs = Inr r"
      "do_POST list_of (map JStr cs) (map JStr rs) = Inr r"
      and gaps: "skill_gaps r = list_of ?G"
      and recs: "recommendations r =
       (if ?G \<noteq> {} then [''Consider learning: '' @ join '', '' (take 3 (list_of ?G))] else []) @
       [tier_message (raw_score cs rs)]"
    by (rule matcher_returns)
  have g: "set (skill_gaps r) = ?G" "distinct (skill_gaps r)"
    unfolding gaps using gaps_listing [OF assms] by simp_all
  have len: "length (take 3 (skill_gaps r)) = min 3 (card ?G)"
    using distinct_card [OF g(2)] by (simp add: g(1) min.commute)
  have sub: "set (take 3 (skill_gaps r)) \<subseteq> ?G"
    using set_take_subset [of 3 "skill_gaps r"] by (simp only: g)
  have dist: "distinct (take 3 (skill_gaps r))"
    using g(2) by (rule distinct_take)
  have ne: "take 3 (skill_gaps r) \<noteq> []" if "?G \<noteq> {}"
  proof -
    from that g(1) have "skill_gaps r \<noteq> []" by auto
    then show ?thesis by simp
  qed
  have shape: "(?G \<noteq> {} \<longrightarrow>
              recommendations r =
                [''Consider learning: '' @ join '', '' (take 3 (skill_gaps r)),
                 last (recommendations r)] \<and>
              length (take 3 (skill_gaps r)) = min 3 (card ?G) \<and>
              take 3 (skill_gaps r) \<noteq> [] \<and>
              distinct (take 3 (skill_gaps r)) \<and>
              set (take 3 (skill_gaps r)) \<subseteq> ?G) \<and>
           (?G = {} \<longrightarrow> recommendations r = [last (recommendations r)]) \<and>
           is_tier (last (recommendations r))"
    using len sub dist ne by (simp add: recs gaps is_tier_tier_message)
  show ?thesis
    by (rule exI [of _ r]) (intro conjI r shape)
qed

theorem advisory_shape_witness:
  "set_listing ascending \<and>
   skill_set [''python'', ''react'', ''sql'', ''docker'', ''Go''] - skill_set [''python''] \<noteq> {} \<and>
   (\<exists>r. do_POST ascending [JStr ''python'']
          [JStr ''python'', JStr ''react'', JStr ''sql'', JStr ''docker'', JStr ''Go''] = Inr r \<and>
        recommendations r =
          [''Consider learning: docker, go, react'', ''Focus on building required skills first.'']) \<and>
   skill_set [''sql''] - skill_set [''SQL''] = {} \<and>
   (\<exists>r. do_POST ascending [JStr ''SQL''] [JStr ''sql''] = Inr r \<and>
        recommendations r = [''Strong match! Apply with confidence.''])"
proof -
  have 1: "skill_set [''python'', ''react'', ''sql'', ''docker'', ''Go''] - skill_set [''python''] \<noteq> {}"
    by code_simp
  have 2: "skill_set [''sql''] - skill_set [''SQL''] = {}"
    by code_simp
  have 3: "match_skills ascending [''python''] [''python'', ''react'', ''sql'', ''docker'', ''Go''] =
      Inr \<lparr>match_score = binary64 (1 / 5), matched_skills = [''python''],
        skill_gaps = [''docker'', ''go'', ''react'', ''sql''],
        recommendations =
          [''Consider learning: docker, go, react'', ''Focus on building required skills first.'']\<rparr>"
    by code_simp
  have 4: "match_skills ascending [''SQL''] [''sql''] =
      Inr \<lparr>match_score = 1, matched_skills = [''sql''], skill_gaps = [],
        recommendations = [''Strong match! Apply with confidence.'']\<rparr>"
    by code_simp
  have a: "\<exists>r. do_POST ascending [JStr ''python'']
          [JStr ''python'', JStr ''react'', JStr ''sql'', JStr ''docker'', JStr ''Go''] = Inr r \<and>
        recommendations r =
          [''Consider learning: docker, go, react'', ''Focus on building required skills first.'']"
    using advisory_shape [OF set_listing_ascending, of
        "[''python'']" "[''python'', ''react'', ''sql'', ''docker'', ''Go'']"] 1
    by (auto simp: 3)
  have b: "\<exists>r. do_POST ascending [JStr ''SQL''] [JStr ''sql''] = Inr r \<and>
        recommendations r = [''Strong match! Apply with confidence.'']"
    using advisory_shape [OF set_listing_ascending, of "[''SQL'']" "[''sql'']"] 2
    by (auto simp: 4)
  show ?thesis
    using set_listing_ascending 1 2 a b by (intro conjI)
qed

text \<open>
  C5. On an empty requirement list the score is \<open>0.0\<close> and both the matched skills and
  the skill gaps are empty, whatever the candidate list.
\<close>

theorem empty_requirement:
  assumes "set_listing list_of"
  shows "\<exists>r. match_skills list_of cs [] = Inr r \<and>
           do_POST list_of (map JStr cs) [] = Inr r \<and>
           match_score r = 0 \<and> matched_skills r = [] \<and> skill_gaps r = []"
proof -
  obtain r where r: "match_skills list_of cs [] = Inr r"
      "do_POST list_of (map JStr cs) (map JStr []) = Inr r"
      and f: "match_score r = py_round (raw_score cs []) 2"
      "matched_skills r = list_of (skill_set cs \<inter> skill_set [])"
      "skill_gaps r = list_of (skill_set [] - skill_set cs)"
    by (rule matcher_returns)
  have "match_score r = 0" "matched_skills r = []" "skill_gaps r = []"
    using set_listing_empty [OF assms]
    by (simp_all add: f skill_set_def raw_score_def py_round_zero)
  with r show ?thesis
    by simp
qed

theorem empty_requirement_witness:
  "set_listing ascending \<and>
   (\<exists>r. do_POST ascending [] [] = Inr r \<and>
        match_score r = 0 \<and> matched_skills r = [] \<and> skill_gaps r = []) \<and>
   (\<exists>r. do_POST ascending [JStr ''python''] [] = Inr r \<and>
        match_score r = 0 \<and> matched_skills r = [] \<and> skill_gaps r = [])"
  using empty_requirement [OF set_listing_ascending, of "[]"]
    empty_requirement [OF set_listing_ascending, of "[''python'']"] set_listing_ascending
  by auto

text \<open>
  C6. An entry of either list that is not a string makes both handlers fail: they end
  in the \<^verbatim>\<open>AttributeError\<close> of \<^verbatim>\<open>s.lower()\<close> (the failure the specification calls
  InvalidInput) and build no response. On lists of strings they return what the matcher
  returns on exactly those strings, none coerced and none dropped, and that is a
  response, never an error.
\<close>

theorem non_string_entry_rejected:
  "do_POST list_of xs ys =
     (if (\<forall>x \<in> set xs \<union> set ys. is_str x)
      then match_skills list_of (map str_of xs) (map str_of ys)
      else Inl AttributeError) \<and>
   handler_match_skills list_of xs ys = do_POST list_of xs ys \<and>
   (\<exists>r. match_skills list_of cs rs = Inr r \<and>
        do_POST list_of (map JStr cs) (map JStr rs) = Inr r)"
proof -
  have "do_POST list_of xs ys =
     (if (\<forall>x \<in> set xs \<union> set ys. is_str x)
      then match_skills list_of (map str_of xs) (map str_of ys)
      else Inl AttributeError)"
    by (auto simp: do_POST_cases list_all_iff)
  moreover obtain r where "match_skills list_of cs rs = Inr r"
      "do_POST list_of (map JStr cs) (map JStr rs) = Inr r"
    by (rule matcher_returns)
  ultimately show ?thesis
    by (simp add: handler_match_skills_do_POST)
qed

theorem non_string_entry_rejected_witness:
  "do_POST ascending [JStr ''Python'', JNum 3] [JStr ''python''] = Inl AttributeError \<and>
   handler_match_skills ascending [JStr ''Python''] [JNull, JStr ''python''] = Inl AttributeError \<and>
   do_POST ascending [JStr ''Python''] [JStr ''python''] =
     Inr \<lparr>match_score = 1, matched_skills = [''python''], skill_gaps = [],
          recommendations = [''Strong match! Apply with confidence.'']\<rparr>"
proof -
  have "match_skills ascending [''Python''] [''python''] =
     Inr \<lparr>match_score = 1, matched_skills = [''python''], skill_gaps = [],
          recommendations = [''Strong match! Apply with confidence.'']\<rparr>"
    by code_simp
  then show ?thesis
    using non_string_entry_rejected [of ascending "[JStr ''Python'', JNum 3]" "[JStr ''python'']"]
      non_string_entry_rejected [of ascending "[JStr ''Python'']" "[JNull, JStr ''python'']"]
      non_string_entry_rejected [of ascending "[JStr ''Python'']" "[JStr ''python'']"]
    by simp
qed

text \<open>
  C7, as the claim has it, with the same lists and the same advisories from any two
  invocations: refuted. Two invocations that list their sets in different orders, as
  two interpreter processes can, return the gaps in different orders and different
  gap notices on the same input.
\<close>

theorem same_lists_counterexample:
  "set_listing ascending \<and> set_listing descending \<and>
   do_POST ascending [JStr ''python''] [JStr ''sql'', JStr ''react''] =
     Inr \<lparr>match_score = 0, matched_skills = [], skill_gaps = [''react'', ''sql''],
          recommendations =
            [''Consider learning: react, sql'', ''Focus on building required skills first.'']\<rparr> \<and>
   do_POST descending [JStr ''python''] [JStr ''sql'', JStr ''react''] =
     Inr \<lparr>match_score = 0, matched_skills = [], skill_gaps = [''sql'', ''react''],
          recommendations =
            [''Consider learning: sql, react'', ''Focus on building required skills first.'']\<rparr> \<and>
   match_skills ascending [''python''] [''sql'', ''react''] =
     do_POST ascending [JStr ''python''] [JStr ''sql'', JStr ''react''] \<and>
   match_skills descending [''python''] [''sql'', ''react''] =
     do_POST descending [JStr ''python''] [JStr ''sql'', JStr ''react'']"
proof -
  have "do_POST ascending [JStr ''python''] [JStr ''sql'', JStr ''react''] =
     Inr \<lparr>match_score = 0, matched_skills = [], skill_gaps = [''react'', ''sql''],
          recommendations =
            [''Consider learning: react, sql'', ''Focus on building required skills first.'']\<rparr> \<and>
   do_POST descending [JStr ''python''] [JStr ''sql'', JStr ''react''] =
     Inr \<lparr>match_score = 0, matched_skills = [], skill_gaps = [''sql'', ''react''],
          recommendations =
            [''Consider learning: sql, react'', ''Focus on building required skills first.'']\<rparr> \<and>
   match_skills ascending [''python''] [''sql'', ''react''] =
     do_POST ascending [JStr ''python''] [JStr ''sql'', JStr ''react''] \<and>
   match_skills descending [''python''] [''sql'', ''react''] =
     do_POST descending [JStr ''python''] [JStr ''sql'', JStr ''react'']"
    by code_simp
  with set_listing_ascending set_listing_descending show ?thesis
    by (intro conjI) simp_all
qed

text \<open>
  C7, amended. Two invocations on the same input, each with its own listing of sets,
  return the same score, the same matched skills and the same skill gaps up to their
  order, as many advisories, and the same tier message. The whole responses are equal
  when the two invocations list the matched set and the gap set in the same order.
\<close>

theorem same_up_to_listing:
  assumes "set_listing list_of" "set_listing list_of'"
  shows "\<exists>r r'. match_skills list_of cs rs = Inr r \<and> match_skills list_of' cs rs = Inr r' \<and>
           do_POST list_of (map JStr cs) (map JStr rs) = Inr r \<and>
           do_POST list_of' (map JStr cs) (map JStr rs) = Inr r' \<and>
           match_score r = match_score r' \<and>
           mset (matched_skills r) = mset (matched_skills r') \<and>
           mset (skill_gaps r) = mset (skill_gaps r') \<and>
           length (recommendations r) = length (recommendations r') \<and>
           last (recommendations r) = last (recommendations r') \<and>
           (list_of (skill_set cs \<inter> skill_set rs) = list_of' (skill_set cs \<inter> skill_set rs) \<and>
            list_of (skill_set rs - skill_set cs) = list_of' (skill_set rs - skill_set cs) \<longrightarrow>
              r = r')"
proof -
  let ?M = "skill_set cs \<inter> skill_set rs"
  let ?G = "skill_set rs - skill_set cs"
  obtain r where r: "match_skills list_of cs rs = Inr r"
      "do_POST list_of (map JStr cs) (map JStr rs) = Inr r"
      and f: "match_score r = py_round (raw_score cs rs) 2"
      "matched_skills r = list_of ?M" "skill_gaps r = list_of ?G"
      "recommendations r =
       (if ?G \<noteq> {} then [''Consider learning: '' @ join '', '' (take 3 (list_of ?G))] else []) @
       [tier_message (raw_score cs rs)]"
    by (rule matcher_returns)
  obtain r' where r': "match_skills list_of' cs rs = Inr r'"
      "do_POST list_of' (map JStr cs) (map JStr rs) = Inr r'"
      and f': "match_score r' = py_round (raw_score cs rs) 2"
      "matched_skills r' = list_of' ?M" "skill_gaps r' = list_of' ?G"
      "recommendations r' =
       (if ?G \<noteq> {} then [''Consider learning: '' @ join '', '' (take 3 (list_of' ?G))] else []) @
       [tier_message (raw_score cs rs)]"
    by (rule matcher_returns)
  have m: "mset (matched_skills r) = mset (matched_skills r')"
    unfolding f f'
    using matched_listing [OF assms(1), of cs rs] matched_listing [OF assms(2), of cs rs]
    by (simp add: set_eq_iff_mset_eq_distinct [symmetric])
  have g: "mset (skill_gaps r) = mset (skill_gaps r')"
    unfolding f f'
    using gaps_listing [OF assms(1), of rs cs] gaps_listing [OF assms(2), of rs cs]
    by (simp add: set_eq_iff_mset_eq_distinct [symmetric])
  have s: "match_score r = match_score r'" "length (recommendations r) = length (recommendations r')"
      "last (recommendations r) = last (recommendations r')"
    by (simp_all add: f f')
  have e: "list_of ?M = list_of' ?M \<and> list_of ?G = list_of' ?G \<longrightarrow> r = r'"
    using r(1) r'(1) by (auto simp: match_skills_unfold)
  show ?thesis
    by (rule exI [of _ r], rule exI [of _ r']) (intro conjI r r' s m g e)
qed

theorem same_up_to_listing_witness:
  "set_listing ascending \<and> set_listing descending \<and>
   (\<exists>r r'. do_POST ascending [JStr ''python''] [JStr ''sql'', JStr ''react''] = Inr r \<and>
      do_POST descending [JStr ''python''] [JStr ''sql'', JStr ''react''] = Inr r' \<and>
      match_score r = match_score r' \<and>
      mset (skill_gaps r) = mset (skill_gaps r') \<and>
      last (recommendations r) = last (recommendations r'))"
  using same_up_to_listing [OF set_listing_ascending set_listing_descending,
      of "[''python'']" "[''sql'', ''react'']"]
    set_listing_ascending set_listing_descending
  by auto

text \<open>
  C8. The three implementations do not compute the same result. The module
  \<^verbatim>\<open>main.py\<close> does not compile, since its line 59 reads \<^verbatim>\<open>@app:post(\<close> where the
  other routes read \<^verbatim>\<open>@app.post(\<close>; its route answers no request, while \<open>do_POST\<close> and
  the handler of the web app return a response on the same lists.
\<close>

theorem main_py_does_not_compile:
  "\<not> decorator_head ''@app:post('' \<and> decorator_head ''@app.post('' \<and>
   main_py_match_skills list_of cs rs = Inl SyntaxError \<and>
   do_POST ascending [JStr ''Python''] [JStr ''python''] =
     Inr \<lparr>match_score = 1, matched_skills = [''python''], skill_gaps = [],
          recommendations = [''Strong match! Apply with confidence.'']\<rparr> \<and>
   handler_match_skills ascending [JStr ''Python''] [JStr ''python''] =
     Inr \<lparr>match_score = 1, matched_skills = [''python''], skill_gaps = [],
          recommendations = [''Strong match! Apply with confidence.'']\<rparr>"
proof -
  have 1: "\<not> decorator_head ''@app:post(''" "decorator_head ''@app.post(''"
    by code_simp+
  have 2: "\<not> main_py_compiles"
    by code_simp
  have 3: "do_POST ascending [JStr ''Python''] [JStr ''python''] =
     Inr \<lparr>match_score = 1, matched_skills = [''python''], skill_gaps = [],
          recommendations = [''Strong match! Apply with confidence.'']\<rparr>"
    by code_simp
  show ?thesis
    using 1 3 by (simp add: main_py_match_skills_def 2 handler_match_skills_do_POST)
qed

text \<open>
  C9. The matched skills and the skill gaps are disjoint, together they are the
  lowercased requirement set, and every matched skill is in the lowercased candidate set.
\<close>

theorem matched_gaps_partition:
  assumes "set_listing list_of"
  shows "\<exists>r. match_skills list_of cs rs = Inr r \<and>
           do_POST list_of (map JStr cs) (map JStr rs) = Inr r \<and>
           set (matched_skills r) \<inter> set (skill_gaps r) = {} \<and>
           set (matched_skills r) \<union> set (skill_gaps r) = skill_set rs \<and>
           set (matched_skills r) \<subseteq> skill_set cs"
proof -
  obtain r where r: "match_skills list_of cs rs = Inr r"
      "do_POST list_of (map JStr cs) (map JStr rs) = Inr r"
      and f: "matched_skills r = list_of (skill_set cs \<inter> skill_set rs)"
      "skill_gaps r = list_of (skill_set rs - skill_set cs)"
    by (rule matcher_returns)
  have "set (matched_skills r) \<inter> set (skill_gaps r) = {}"
      "set (matched_skills r) \<union> set (skill_gaps r) = skill_set rs"
      "set (matched_skills r) \<subseteq> skill_set cs"
    unfolding f using matched_listing [OF assms, of cs rs] gaps_listing [OF assms, of rs cs]
    by auto
  with r show ?thesis
    by (intro exI [of _ r] conjI)
qed

theorem matched_gaps_partition_witness:
  "set_listing descending \<and>
   (\<exists>r. do_POST descending [JStr ''PYTHON'', JStr ''Go''] [JStr ''python'', JStr ''SQL''] = Inr r \<and>
      set (matched_skills r) \<inter> set (skill_gaps r) = {} \<and>
      set (matched_skills r) \<union> set (skill_gaps r) = {''python'', ''sql''})"
proof -
  have 1: "skill_set [''python'', ''SQL''] = {''python'', ''sql''}"
    by code_simp
  show ?thesis
    using matched_gaps_partition [OF set_listing_descending, of "[''PYTHON'', ''Go'']" "[''python'', ''SQL'']"]
      set_listing_descending
    by (auto simp: 1)
qed

text \<open>
  C10. Reordering a list and adding entries whose lowercase is already there (copies,
  or the same skill in another casing) changes neither the score nor the set of matched
  skills nor the set of skill gaps, in whatever order the sets are listed: \<open>cs'\<close> is any
  arrangement of \<open>cs\<close> and such extra entries \<open>ds\<close>, and \<open>rs'\<close> of \<open>rs\<close> and \<open>es\<close>.
\<close>

theorem reorder_and_duplicate:
  assumes "set_listing list_of" "set_listing list_of'"
    and "mset cs' = mset (cs @ ds)" "skill_set ds \<subseteq> skill_set cs"
    and "mset rs' = mset (rs @ es)" "skill_set es \<subseteq> skill_set rs"
  shows "\<exists>r r'. match_skills list_of cs rs = Inr r \<and> match_skills list_of' cs' rs' = Inr r' \<and>
           do_POST list_of (map JStr cs) (map JStr rs) = Inr r \<and>
           do_POST list_of' (map JStr cs') (map JStr rs') = Inr r' \<and>
           match_score r' = match_score r \<and>
           set (matched_skills r') = set (matched_skills r) \<and>
           set (skill_gaps r') = set (skill_gaps r)"
proof -
  have "set cs' = set (cs @ ds)"
    using assms(3) by (rule mset_eq_setD)
  then have "skill_set cs' = skill_set cs \<union> skill_set ds"
    by (simp add: skill_set_def image_Un)
  with assms(4) have c: "skill_set cs' = skill_set cs"
    by auto
  have "set rs' = set (rs @ es)"
    using assms(5) by (rule mset_eq_setD)
  then have "skill_set rs' = skill_set rs \<union> skill_set es"
    by (simp add: skill_set_def image_Un)
  with assms(6) have q: "skill_set rs' = skill_set rs"
    by auto
  obtain r where r: "match_skills list_of cs rs = Inr r"
      "do_POST list_of (map JStr cs) (map JStr rs) = Inr r"
      and f: "match_score r = py_round (raw_score cs rs) 2"
      "matched_skills r = list_of (skill_set cs \<inter> skill_set rs)"
      "skill_gaps r = list_of (skill_set rs - skill_set cs)"
    by (rule matcher_returns)
  obtain r' where r': "match_skills list_of' cs' rs' = Inr r'"
      "do_POST list_of' (map JStr cs') (map JStr rs') = Inr r'"
      and f': "match_score r' = py_round (raw_score cs' rs') 2"
      "matched_skills r' = list_of' (skill_set cs' \<inter> skill_set rs')"
      "skill_gaps r' = list_of' (skill_set rs' - skill_set cs')"
    by (rule matcher_returns)
  have "match_score r' = match_score r"
    by (simp add: f f' raw_score_def c q)
  moreover have "set (matched_skills r') = set (matched_skills r)"
    unfolding f f' c q
    using matched_listing [OF assms(1), of cs rs] matched_listing [OF assms(2), of cs rs]
    by simp
  moreover have "set (skill_gaps r') = set (skill_gaps r)"
    unfolding f f' c q
    using gaps_listing [OF assms(1), of rs cs] gaps_listing [OF assms(2), of rs cs]
    by simp
  ultimately show ?thesis
    using r r' by (intro exI [of _ r] exI [of _ r'] conjI)
qed

theorem reorder_and_duplicate_witness:
  "set_listing ascending \<and> set_listing descending \<and>
   mset [''sql'', ''PYTHON'', ''python''] = mset ([''python'', ''sql''] @ [''PYTHON'']) \<and>
   skill_set [''PYTHON''] \<subseteq> skill_set [''python'', ''sql''] \<and>
   mset [''react'', ''Python'', ''react''] = mset ([''Python'', ''react''] @ [''react'']) \<and>
   skill_set [''react''] \<subseteq> skill_set [''Python'', ''react''] \<and>
   (\<exists>r r'.
      do_POST ascending [JStr ''python'', JStr ''sql''] [JStr ''Python'', JStr ''react''] = Inr r \<and>
      do_POST descending [JStr ''sql'', JStr ''PYTHON'', JStr ''python'']
        [JStr ''react'', JStr ''Python'', JStr ''react''] = Inr r' \<and>
      match_score r' = match_score r \<and>
      set (matched_skills r') = set (matched_skills r) \<and>
      set (skill_gaps r') = set (skill_gaps r))"
proof -
  have 1: "mset [''sql'', ''PYTHON'', ''python''] = mset ([''python'', ''sql''] @ [''PYTHON''])"
    by simp
  have 2: "skill_set [''PYTHON''] \<subseteq> skill_set [''python'', ''sql'']"
    by code_simp
  have 3: "mset [''react'', ''Python'', ''react''] = mset ([''Python'', ''react''] @ [''react''])"
    by simp
  have 4: "skill_set [''react''] \<subseteq> skill_set [''Python'', ''react'']"
    by code_simp
  have "\<exists>r r'.
      do_POST ascending [JStr ''python'', JStr ''sql''] [JStr ''Python'', JStr ''react''] = Inr r \<and>
      do_POST descending [JStr ''sql'', JStr ''PYTHON'', JStr ''python'']
        [JStr ''react'', JStr ''Python'', JStr ''react''] = Inr r' \<and>
      match_score r' = match_score r \<and>
      set (matched_skills r') = set (matched_skills r) \<and>
      set (skill_gaps r') = set (skill_gaps r)"
    using reorder_and_duplicate [OF set_listing_ascending set_listing_descending 1 2 3 4]
    by auto
  then show ?thesis
    using set_listing_ascending set_listing_descending 1 2 3 4 by (intro conjI)
qed

end
